theory Spec2Isabelle
  imports Complex_Main "HOL-Library.Word"
begin

section \<open>The active-set QP solver of gtsam\_unstable/linear/QPSolver.h\<close>

text \<open>
  The header holds the solver's state \<open>QPState\<close>, the class \<open>QPSolver\<close> with the body of
  one member, \<open>collectDualJacobians\<close>, the declarations of the others, and the exception
  \<open>InfeasibleInitialValues\<close>. The first part of this theory embeds
  \<open>collectDualJacobians\<close> as it is written; the second part embeds the exception and the
  solver state as they are written and follows the specification for the start of
  \<open>optimize\<close>, whose body is in a file the header only declares.
\<close>

subsection \<open>Keys, blocks and constraint factors\<close>

text \<open>
  A \<open>Key\<close> identifies one vector-valued unknown. A \<open>Matrix\<close> is the list of its rows. The
  scalar type is a parameter: collecting the dual Jacobians moves blocks and never
  computes with their entries.
\<close>

type_synonym Key = nat
type_synonym 'a Vector = "'a list"
type_synonym 'a Matrix = "'a list list"

text \<open>
  What \<open>collectDualJacobians\<close> asks of its template parameter \<open>FACTOR\<close>: the ordered
  (key, block) pairs behind \<open>find\<close> and \<open>getA\<close>, the right-hand side, \<open>dualKey()\<close> and
  \<open>active()\<close>. Both instances of the header, the equality factors and the inequality
  factors of the working set, are values of this record.
\<close>

record 'a Factor =
  terms :: "(Key \<times> 'a Matrix) list"
  getb :: "'a Vector"
  dualKey :: Key
  active :: bool

definition keys :: "'a Factor \<Rightarrow> Key list" where
  "keys f = map fst (terms f)"

subsection \<open>The exception of the header\<close>

text \<open>
  \<open>class InfeasibleInitialValues\<close>: its only constructor takes no argument, and its only
  data member is the text \<open>description_\<close>, empty until \<open>what()\<close> is first called.
\<close>

record InfeasibleInitialValues =
  description :: string

definition InfeasibleInitialValues_ctor :: InfeasibleInitialValues where
  "InfeasibleInitialValues_ctor = \<lparr>description = []\<rparr>"

definition InfeasibleInitialValues_text :: string where
  "InfeasibleInitialValues_text =
     ''An infeasible intial value was provided for the QPSolver.'' @ [CHR 0x0A] @
     ''This current version of QPSolver does not handle infeasible'' @
     ''initial point due to the lack of a LPSolver.'' @ [CHR 0x0A]"

text \<open>
  \<open>what()\<close> fills the mutable \<open>description_\<close> when it is empty and returns it: the result
  is the text together with the object as the call leaves it.
\<close>

definition what :: "InfeasibleInitialValues \<Rightarrow> string \<times> InfeasibleInitialValues" where
  "what e =
     (let e' = (if description e = [] then e\<lparr>description := InfeasibleInitialValues_text\<rparr> else e)
      in (description e', e'))"

text \<open>
  Every way a call can end without a value. \<open>OutOfRange\<close> is the \<open>std::out_of_range\<close> of
  \<open>graph.at\<close>, \<open>InvalidArgument\<close> the refusal of \<open>variableIndex[key]\<close> for a key it does not
  hold, \<open>InvalidIterator\<close> stands for \<open>getA\<close> applied to the end iterator that \<open>find\<close>
  returns for a key the factor does not have (undefined in C++), \<open>DimensionMismatch\<close> is
  the specification's error for a vector of the wrong size or a key without a value.
\<close>

datatype error =
    OutOfRange
  | InvalidArgument
  | InvalidIterator
  | DimensionMismatch
  | Infeasible InfeasibleInitialValues

subsection \<open>Factor graphs and the variable index\<close>

text \<open>
  \<open>graph.at(i)\<close>: checked access to slot \<open>i\<close> (\<open>at\<close> is taken in HOL). A slot holds a
  factor: the loop below dereferences the pointer it gets without a null check, so a graph
  is the list of its factors.
\<close>

definition at_graph :: "'f list \<Rightarrow> nat \<Rightarrow> error + 'f" where
  "at_graph graph i = (if i < length graph then Inr (graph ! i) else Inl OutOfRange)"

text \<open>
  \<open>factor->find(key)\<close>: the position of the first pair with that key, or the number of
  pairs (the end iterator) when there is none.
\<close>

fun find_key :: "Key list \<Rightarrow> Key \<Rightarrow> nat" where
  "find_key [] key = 0"
| "find_key (k # ks) key = (if k = key then 0 else Suc (find_key ks key))"

text \<open>\<open>factor->getA(it)\<close>: the block at that position.\<close>

definition getA :: "'a Factor \<Rightarrow> nat \<Rightarrow> error + 'a Matrix" where
  "getA f pos = (if pos < length (terms f) then Inr (snd (terms f ! pos)) else Inl InvalidIterator)"

text \<open>
  A \<open>VariableIndex\<close> maps a key to the indices of the factors that reference it.
  \<open>variableIndex.find(key) != variableIndex.end()\<close> is \<open>variableIndex key \<noteq> None\<close>, and
  \<open>variableIndex[key]\<close> refuses a key that is not there.
\<close>

type_synonym VariableIndex = "Key \<rightharpoonup> nat list"

definition VariableIndex_at :: "VariableIndex \<Rightarrow> Key \<Rightarrow> error + nat list" where
  "VariableIndex_at variableIndex key =
     (case variableIndex key of None \<Rightarrow> Inl InvalidArgument | Some ixs \<Rightarrow> Inr ixs)"

text \<open>
  Modelled from the spec: the class \<open>VariableIndex\<close> is declared outside the header; the
  index of a graph is built as section 4.3 of the specification says, by scanning the
  graph once and, for each factor index \<open>i\<close> and each key \<open>k\<close> that factor \<open>i\<close> references,
  appending \<open>i\<close> to \<open>index[k]\<close>.
\<close>

definition augment :: "nat \<Rightarrow> Key \<Rightarrow> VariableIndex \<Rightarrow> VariableIndex" where
  "augment i k index = index(k \<mapsto> (case index k of None \<Rightarrow> [] | Some ixs \<Rightarrow> ixs) @ [i])"

fun VariableIndex_scan :: "nat \<Rightarrow> 'a Factor list \<Rightarrow> VariableIndex \<Rightarrow> VariableIndex" where
  "VariableIndex_scan i [] index = index"
| "VariableIndex_scan i (f # fs) index = VariableIndex_scan (Suc i) fs (fold (augment i) (keys f) index)"

definition VariableIndex_of :: "'a Factor list \<Rightarrow> VariableIndex" where
  "VariableIndex_of graph = VariableIndex_scan 0 graph Map.empty"

subsection \<open>collectDualJacobians\<close>

text \<open>
  The body of the \<open>BOOST_FOREACH\<close> loop over \<open>variableIndex[key]\<close>, with the vector
  \<open>Aterms\<close> passed along: fetch the factor, skip it when it is not active, otherwise
  append the pair of its dual key and the transposed block it stores for \<open>key\<close>.
\<close>

fun collect_loop ::
  "Key \<Rightarrow> 'a Factor list \<Rightarrow> nat list \<Rightarrow> (Key \<times> 'a Matrix) list \<Rightarrow> error + (Key \<times> 'a Matrix) list" where
  "collect_loop key graph [] Aterms = Inr Aterms"
| "collect_loop key graph (factorIx # rest) Aterms =
     (case at_graph graph factorIx of
        Inl e \<Rightarrow> Inl e
      | Inr factor \<Rightarrow>
          if \<not> active factor then collect_loop key graph rest Aterms
          else (case getA factor (find_key (keys factor) key) of
                  Inl e \<Rightarrow> Inl e
                | Inr A \<Rightarrow> collect_loop key graph rest (Aterms @ [(dualKey factor, transpose A)])))"

definition collectDualJacobians ::
  "Key \<Rightarrow> 'a Factor list \<Rightarrow> VariableIndex \<Rightarrow> error + (Key \<times> 'a Matrix) list" where
  "collectDualJacobians key graph variableIndex =
     (if variableIndex key \<noteq> None
      then (case VariableIndex_at variableIndex key of
              Inl e \<Rightarrow> Inl e
            | Inr ixs \<Rightarrow> collect_loop key graph ixs [])
      else Inr [])"

text \<open>
  The pair one active factor contributes for \<open>key\<close>: its dual key and the transpose of the
  first block it stores under \<open>key\<close>.
\<close>

definition dual_term :: "Key \<Rightarrow> 'a Factor \<Rightarrow> Key \<times> 'a Matrix" where
  "dual_term key f = (dualKey f, transpose (the (map_of (terms f) key)))"

text \<open>
  The factor indices a scan records for \<open>key\<close>, counted from \<open>i\<close>: index \<open>j\<close> once for
  every occurrence of \<open>key\<close> among the keys of the factor in slot \<open>j\<close>.
\<close>

fun occurrences :: "nat \<Rightarrow> 'a Factor list \<Rightarrow> Key \<Rightarrow> nat list" where
  "occurrences i [] key = []"
| "occurrences i (f # fs) key = replicate (count_list (keys f) key) i @ occurrences (Suc i) fs key"

subsection \<open>Values, the problem and the solver state\<close>

text \<open>
  \<open>VectorValues\<close> assigns vectors to keys; \<open>VectorValues()\<close> is the empty map. The entries
  of the vectors are C++ doubles, read here as real numbers: the part below only compares
  residuals with a threshold.
\<close>

type_synonym VectorValues = "Key \<rightharpoonup> real Vector"
type_synonym InequalityFactorGraph = "real Factor list"

text \<open>\<open>struct QPState\<close> with its two constructors; \<open>size_t\<close> is a 64-bit word.\<close>

record QPState =
  values_of :: VectorValues
  duals :: VectorValues
  workingSet :: InequalityFactorGraph
  converged :: bool
  iterations :: "64 word"

definition QPState_default :: QPState where
  "QPState_default =
     \<lparr>values_of = Map.empty, duals = Map.empty, workingSet = [], converged = False, iterations = 0\<rparr>"

definition QPState_init ::
  "VectorValues \<Rightarrow> VectorValues \<Rightarrow> InequalityFactorGraph \<Rightarrow> bool \<Rightarrow> 64 word \<Rightarrow> QPState" where
  "QPState_init initialValues initialDuals initialWorkingSet c n =
     \<lparr>values_of = initialValues, duals = initialDuals, workingSet = initialWorkingSet,
      converged = c, iterations = n\<rparr>"

text \<open>
  The problem \<open>QP\<close> (declared in QP.h: the triple of cost, equalities and inequalities) and
  the data members of \<open>class QPSolver\<close>. The cost graph and the base graph hold Hessian
  factors, which nothing below reads: their types are parameters.
\<close>

record 'c QP =
  cost :: 'c
  equalities :: "real Factor list"
  inequalities :: InequalityFactorGraph

record ('c, 'g) QPSolver =
  qp :: "'c QP"
  baseGraph :: 'g
  costVariableIndex :: VariableIndex
  equalityVariableIndex :: VariableIndex
  inequalityVariableIndex :: VariableIndex
  constrainedKeys :: "Key list"

subsection \<open>The initial working set and the start of optimize\<close>

text \<open>
  Modelled from the spec: the feasibility tolerance is no parameter of the declared
  \<open>identifyActiveConstraints\<close> and \<open>optimize\<close>; it is the value section 6 of the
  specification gives \<open>feas_tol\<close>, 1e-7.
\<close>

definition feasibility_tol :: real where
  "feasibility_tol = 1 / 10 ^ 7"

text \<open>
  Modelled from the spec: the row product of a factor \<open>a\<^sup>T x\<close>, absent from the header, with
  the checked dimensions of section 7: a block that is not a single row, a key without a
  value, or a vector of another length than the row raises \<open>DimensionMismatch\<close>.
\<close>

fun dotProductRow :: "(Key \<times> real Matrix) list \<Rightarrow> VectorValues \<Rightarrow> error + real" where
  "dotProductRow [] x = Inr 0"
| "dotProductRow ((k, A) # rest) x =
     (case A of
        [row] \<Rightarrow>
          (case x k of
             None \<Rightarrow> Inl DimensionMismatch
           | Some v \<Rightarrow>
               if length v \<noteq> length row then Inl DimensionMismatch
               else (case dotProductRow rest x of
                       Inl e \<Rightarrow> Inl e
                     | Inr s \<Rightarrow> Inr (sum_list (map2 (*) row v) + s)))
      | _ \<Rightarrow> Inl DimensionMismatch)"

text \<open>
  Modelled from the spec: the residual \<open>r = a\<^sup>T x - b\<close> of an inequality \<open>a\<^sup>T x \<le> b\<close>
  (section 4.8); the right-hand side of an inequality is a single number.
\<close>

definition residual :: "real Factor \<Rightarrow> VectorValues \<Rightarrow> error + real" where
  "residual f x =
     (case getb f of
        [b] \<Rightarrow> (case dotProductRow (terms f) x of Inl e \<Rightarrow> Inl e | Inr ax \<Rightarrow> Inr (ax - b))
      | _ \<Rightarrow> Inl DimensionMismatch)"

definition activate :: "'a Factor \<Rightarrow> 'a Factor" where
  "activate f = f\<lparr>active := True\<rparr>"

definition inactivate :: "'a Factor \<Rightarrow> 'a Factor" where
  "inactivate f = f\<lparr>active := False\<rparr>"

text \<open>
  Modelled from the spec: whether the initial duals hold a strictly positive entry for a
  dual key (section 4.8, "if warm\_start and duals0[dualKey] > 0 exists"). Section 9(c)
  of the specification notes that the source promotes on any dual that is present; the
  properties proved below do not depend on the sign test.
\<close>

definition positive_dual :: "VectorValues \<Rightarrow> Key \<Rightarrow> bool" where
  "positive_dual duals0 k = (case duals0 k of Some (l # _) \<Rightarrow> 0 < l | _ \<Rightarrow> False)"

text \<open>
  Modelled from the spec: the body of \<open>identifyActiveConstraints\<close>, which the header only
  declares, after section 4.8: for each inequality in order, the residual at the initial
  values; above the tolerance the call raises \<open>InfeasibleInitialValues\<close>, within it the
  inequality is activated, below it the inequality is activated only on a warm start
  with a positive dual. The exception is built by the only constructor the header gives
  it.
\<close>

fun identifyActiveConstraints ::
  "InequalityFactorGraph \<Rightarrow> VectorValues \<Rightarrow> VectorValues \<Rightarrow> bool \<Rightarrow> error + InequalityFactorGraph" where
  "identifyActiveConstraints [] initialValues duals0 useWarmStart = Inr []"
| "identifyActiveConstraints (f # fs) initialValues duals0 useWarmStart =
     (case residual f initialValues of
        Inl e \<Rightarrow> Inl e
      | Inr r \<Rightarrow>
          if feasibility_tol < r then Inl (Infeasible InfeasibleInitialValues_ctor)
          else
            (case identifyActiveConstraints fs initialValues duals0 useWarmStart of
               Inl e \<Rightarrow> Inl e
             | Inr ws \<Rightarrow>
                 Inr ((if - feasibility_tol \<le> r then activate f
                       else if useWarmStart \<and> positive_dual duals0 (dualKey f) then activate f
                       else inactivate f) # ws)))"

text \<open>
  Modelled from the spec: the start of \<open>optimize\<close>, which the header only declares, after
  section 4.8: build the initial working set, then run the loop of \<open>iterate\<close> from the
  state \<open>QPState(initialValues, duals, workingSet, false, 0)\<close> and return the pair of the
  final values and duals. The loop itself is the parameter \<open>mainLoop\<close>.
\<close>

definition optimize ::
  "(QPState \<Rightarrow> error + QPState) \<Rightarrow> ('c, 'g) QPSolver \<Rightarrow> VectorValues \<Rightarrow> VectorValues \<Rightarrow> bool
     \<Rightarrow> error + (VectorValues \<times> VectorValues)" where
  "optimize mainLoop solver initialValues duals0 useWarmStart =
     (case identifyActiveConstraints (inequalities (qp solver)) initialValues duals0 useWarmStart of
        Inl e \<Rightarrow> Inl e
      | Inr workingSet0 \<Rightarrow>
          (case mainLoop (QPState_init initialValues duals0 workingSet0 False 0) of
             Inl e \<Rightarrow> Inl e
           | Inr state \<Rightarrow> Inr (values_of state, duals state)))"

text \<open>
  The inequalities an initial point violates by more than the tolerance, by factor index:
  what an error would have to carry to say which constraints failed.
\<close>

definition violatedConstraints :: "InequalityFactorGraph \<Rightarrow> VectorValues \<Rightarrow> nat list" where
  "violatedConstraints graph x =
     filter (\<lambda>i. case residual (graph ! i) x of Inl e \<Rightarrow> False | Inr r \<Rightarrow> feasibility_tol < r)
       [0 ..< length graph]"

subsection \<open>Two small problems\<close>

text \<open>
  A graph of three factors over the keys 1 and 2: the first and the third are active, the
  second is not; key 1 is referenced by the first two.
\<close>

definition graph0 :: "int Factor list" where
  "graph0 =
     [\<lparr>terms = [(1, [[2, 3]]), (2, [[5]])], getb = [1], dualKey = 10, active = True\<rparr>,
      \<lparr>terms = [(1, [[7, 8]])], getb = [4], dualKey = 11, active = False\<rparr>,
      \<lparr>terms = [(2, [[9]])], getb = [6], dualKey = 12, active = True\<rparr>]"

text \<open>
  Two inequalities \<open>x\<^sub>1 \<le> 1\<close> and \<open>x\<^sub>2 \<le> 1\<close>, a solver for them, and two starts: \<open>start_a\<close>
  violates only the first inequality, \<open>start_b\<close> only the second.
\<close>

definition box2 :: InequalityFactorGraph where
  "box2 =
     [\<lparr>terms = [(1, [[1]])], getb = [1], dualKey = 10, active = False\<rparr>,
      \<lparr>terms = [(2, [[1]])], getb = [1], dualKey = 11, active = False\<rparr>]"

definition solver2 :: "(unit, unit) QPSolver" where
  "solver2 =
     \<lparr>qp = \<lparr>cost = (), equalities = [], inequalities = box2\<rparr>, baseGraph = (),
      costVariableIndex = Map.empty, equalityVariableIndex = Map.empty,
      inequalityVariableIndex = VariableIndex_of box2, constrainedKeys = [1, 2]\<rparr>"

definition start_a :: VectorValues where
  "start_a = [1 \<mapsto> [5], 2 \<mapsto> [0]]"

definition start_b :: VectorValues where
  "start_b = [1 \<mapsto> [0], 2 \<mapsto> [5]]"

section \<open>Properties of collectDualJacobians\<close>

subsection \<open>Finding a key in a factor\<close>

lemma find_key_less: "find_key ks key < length ks \<longleftrightarrow> key \<in> set ks"
  by (induction ks) auto

lemma map_of_find_key:
  "key \<in> set (map fst ts) \<Longrightarrow> map_of ts key = Some (snd (ts ! find_key (map fst ts) key))"
  by (induction ts) auto

lemma getA_find_key:
  "getA f (find_key (keys f) key) =
     (if key \<in> set (keys f) then Inr (the (map_of (terms f) key)) else Inl InvalidIterator)"
  using find_key_less [of "keys f" key] map_of_find_key [of key "terms f"]
  by (auto simp: getA_def keys_def)

subsection \<open>The loop\<close>

text \<open>
  A run of the loop that returns has appended one pair for each active factor of the
  index list, in order, and nothing for the others; every index was in range and every
  active factor had the key.
\<close>

lemma collect_loop_Inr:
  "collect_loop key graph ixs acc = Inr out \<Longrightarrow>
     out = acc @ map (\<lambda>i. dual_term key (graph ! i)) (filter (\<lambda>i. active (graph ! i)) ixs)
     \<and> (\<forall>i\<in>set ixs. i < length graph \<and> (active (graph ! i) \<longrightarrow> key \<in> set (keys (graph ! i))))"
proof (induction ixs arbitrary: acc)
  case Nil
  then show ?case by simp
next
  case (Cons i ixs)
  from Cons.prems have inrange: "i < length graph"
    by (auto simp: at_graph_def split: if_splits)
  show ?case
  proof (cases "active (graph ! i)")
    case False
    with Cons.prems inrange have "collect_loop key graph ixs acc = Inr out"
      by (simp add: at_graph_def)
    from Cons.IH [OF this] False inrange show ?thesis by simp
  next
    case True
    with Cons.prems inrange have haskey: "key \<in> set (keys (graph ! i))"
      by (auto simp: at_graph_def getA_find_key split: if_splits)
    with Cons.prems inrange True
    have "collect_loop key graph ixs (acc @ [dual_term key (graph ! i)]) = Inr out"
      by (simp add: at_graph_def getA_find_key dual_term_def)
    from Cons.IH [OF this] True inrange haskey show ?thesis by simp
  qed
qed

text \<open>Conversely, the loop returns when the index list fits the graph.\<close>

lemma collect_loop_total:
  "\<forall>i\<in>set ixs. i < length graph \<and> (active (graph ! i) \<longrightarrow> key \<in> set (keys (graph ! i))) \<Longrightarrow>
   collect_loop key graph ixs acc =
     Inr (acc @ map (\<lambda>i. dual_term key (graph ! i)) (filter (\<lambda>i. active (graph ! i)) ixs))"
  by (induction ixs arbitrary: acc) (auto simp: at_graph_def getA_find_key dual_term_def)

subsection \<open>The index of a graph\<close>

lemma fold_augment:
  "fold (augment i) ks index k =
     (if k \<in> set ks
      then Some ((case index k of None \<Rightarrow> [] | Some ixs \<Rightarrow> ixs) @ replicate (count_list ks k) i)
      else index k)"
proof (induction ks arbitrary: index)
  case Nil
  then show ?case by simp
next
  case (Cons a ks)
  have "fold (augment i) (a # ks) index k = fold (augment i) ks (augment i a index) k"
    by simp
  also have "\<dots> = (if k \<in> set ks
      then Some ((case augment i a index k of None \<Rightarrow> [] | Some ixs \<Rightarrow> ixs) @ replicate (count_list ks k) i)
      else augment i a index k)"
    by (rule Cons.IH)
  also have "\<dots> = (if k \<in> set (a # ks)
      then Some ((case index k of None \<Rightarrow> [] | Some ixs \<Rightarrow> ixs) @ replicate (count_list (a # ks) k) i)
      else index k)"
    by (simp add: augment_def split: option.splits)
  finally show ?case .
qed

lemma VariableIndex_scan_lookup:
  "VariableIndex_scan i graph index k =
     (if occurrences i graph k = [] then index k
      else Some ((case index k of None \<Rightarrow> [] | Some ixs \<Rightarrow> ixs) @ occurrences i graph k))"
proof (induction graph arbitrary: i index)
  case Nil
  then show ?case by simp
next
  case (Cons f fs)
  show ?case
    by (auto simp: Cons.IH fold_augment count_list_0_iff split: option.splits)
qed

lemma VariableIndex_of_lookup:
  "VariableIndex_of graph k =
     (if occurrences 0 graph k = [] then None else Some (occurrences 0 graph k))"
  by (simp add: VariableIndex_of_def VariableIndex_scan_lookup)

lemma occurrences_empty:
  "occurrences i graph key = [] \<longleftrightarrow> (\<forall>f\<in>set graph. key \<notin> set (keys f))"
  by (induction graph arbitrary: i) (auto simp: count_list_0_iff)

lemma occurrences_sound:
  "j \<in> set (occurrences i graph key) \<Longrightarrow>
     i \<le> j \<and> j < i + length graph \<and> key \<in> set (keys (graph ! (j - i)))"
proof (induction graph arbitrary: i)
  case Nil
  then show ?case by simp
next
  case (Cons f fs)
  from Cons.prems consider "j = i" "key \<in> set (keys f)" | "j \<in> set (occurrences (Suc i) fs key)"
    by (auto simp: count_list_0_iff split: if_splits)
  then show ?case
  proof cases
    case 1
    then show ?thesis by simp
  next
    case 2
    from Cons.IH [OF this] have b: "Suc i \<le> j" "j < Suc i + length fs"
      and k: "key \<in> set (keys (fs ! (j - Suc i)))" by auto
    from b have "j - i = Suc (j - Suc i)" by arith
    with b k show ?thesis by simp
  qed
qed

lemma occurrences_terms:
  "length pre = i \<Longrightarrow>
   map (\<lambda>j. dual_term key ((pre @ fs) ! j)) (filter (\<lambda>j. active ((pre @ fs) ! j)) (occurrences i fs key)) =
   [dual_term key f. f \<leftarrow> fs, active f, k \<leftarrow> keys f, k = key]"
proof (induction fs arbitrary: pre i)
  case Nil
  then show ?case by simp
next
  case (Cons f fs)
  have one: "concat (map (\<lambda>k. if k = key then [x] else []) ks) = replicate (count_list ks key) x"
    for x :: 'b and ks
    by (induction ks) auto
  have "length (pre @ [f]) = Suc i" using Cons.prems by simp
  from Cons.IH [OF this] Cons.prems show ?case
    by (auto simp: one nth_append)
qed

text \<open>
  With the index of the graph itself the call returns, and its result lists the active
  factors that reference the key, in graph order.
\<close>

lemma collectDualJacobians_own_index:
  "collectDualJacobians key graph (VariableIndex_of graph) =
     Inr [dual_term key f. f \<leftarrow> graph, active f, k \<leftarrow> keys f, k = key]"
proof (cases "occurrences 0 graph key = []")
  case True
  then have "\<forall>f\<in>set graph. key \<notin> set (keys f)" by (simp add: occurrences_empty)
  then have "[dual_term key f. f \<leftarrow> graph, active f, k \<leftarrow> keys f, k = key] = []"
    by (induction graph) auto
  with True show ?thesis
    by (simp add: collectDualJacobians_def VariableIndex_of_lookup)
next
  case False
  have ok: "\<forall>j\<in>set (occurrences 0 graph key).
      j < length graph \<and> (active (graph ! j) \<longrightarrow> key \<in> set (keys (graph ! j)))"
    using occurrences_sound [of _ 0 graph key] by auto
  from False show ?thesis
    using collect_loop_total [OF ok, of "[]"] occurrences_terms [of "[]" 0 key graph]
    by (simp add: collectDualJacobians_def VariableIndex_of_lookup VariableIndex_at_def)
qed

text \<open>
  C10. For every key, graph and variable index: when the index does not hold the key,
  \<open>collectDualJacobians\<close> returns the empty list and does not look the key up (the lookup
  \<open>variableIndex[key]\<close> would be refused). When it returns for a key the index holds, its
  result has one pair for each active factor of the key's index list and none for a
  factor whose \<open>active()\<close> is false, although the index lists that factor under the key.
  With the graph's own index the key is missing exactly when no factor references it, and
  the call returns the pairs of the active factors that reference the key, each the
  factor's dual key with the transpose of its block for the key.
\<close>

theorem collectDualJacobians_guard:
  "(variableIndex key = None \<longrightarrow>
      VariableIndex_at variableIndex key = Inl InvalidArgument \<and>
      collectDualJacobians key graph variableIndex = Inr [])
   \<and> (\<forall>ixs Aterms.
        variableIndex key = Some ixs \<and> collectDualJacobians key graph variableIndex = Inr Aterms \<longrightarrow>
          Aterms = map (\<lambda>i. dual_term key (graph ! i)) (filter (\<lambda>i. active (graph ! i)) ixs) \<and>
          (\<forall>i\<in>set ixs. i < length graph \<and> (active (graph ! i) \<longrightarrow> key \<in> set (keys (graph ! i)))))
   \<and> (VariableIndex_of graph key = None \<longleftrightarrow> (\<forall>f\<in>set graph. key \<notin> set (keys f)))
   \<and> collectDualJacobians key graph (VariableIndex_of graph) =
        Inr [dual_term key f. f \<leftarrow> graph, active f, k \<leftarrow> keys f, k = key]"
proof (intro conjI)
  show "variableIndex key = None \<longrightarrow>
      VariableIndex_at variableIndex key = Inl InvalidArgument \<and>
      collectDualJacobians key graph variableIndex = Inr []"
    by (simp add: collectDualJacobians_def VariableIndex_at_def)
next
  show "\<forall>ixs Aterms.
        variableIndex key = Some ixs \<and> collectDualJacobians key graph variableIndex = Inr Aterms \<longrightarrow>
          Aterms = map (\<lambda>i. dual_term key (graph ! i)) (filter (\<lambda>i. active (graph ! i)) ixs) \<and>
          (\<forall>i\<in>set ixs. i < length graph \<and> (active (graph ! i) \<longrightarrow> key \<in> set (keys (graph ! i))))"
  proof (intro allI impI)
    fix ixs Aterms
    assume "variableIndex key = Some ixs \<and> collectDualJacobians key graph variableIndex = Inr Aterms"
    then have "collect_loop key graph ixs [] = Inr Aterms"
      by (auto simp: collectDualJacobians_def VariableIndex_at_def)
    from collect_loop_Inr [OF this]
    show "Aterms = map (\<lambda>i. dual_term key (graph ! i)) (filter (\<lambda>i. active (graph ! i)) ixs) \<and>
          (\<forall>i\<in>set ixs. i < length graph \<and> (active (graph ! i) \<longrightarrow> key \<in> set (keys (graph ! i))))"
      by simp
  qed
next
  show "VariableIndex_of graph key = None \<longleftrightarrow> (\<forall>f\<in>set graph. key \<notin> set (keys f))"
    by (simp add: VariableIndex_of_lookup occurrences_empty)
next
  show "collectDualJacobians key graph (VariableIndex_of graph) =
        Inr [dual_term key f. f \<leftarrow> graph, active f, k \<leftarrow> keys f, k = key]"
    by (rule collectDualJacobians_own_index)
qed

lemma VariableIndex_of_graph0: "VariableIndex_of graph0 = [1 \<mapsto> [0, 1], 2 \<mapsto> [0, 2]]"
  by (auto simp: VariableIndex_of_def graph0_def keys_def augment_def fun_eq_iff)

text \<open>
  On \<open>graph0\<close>: key 7 is in no factor, and the call returns the empty list; key 1 is
  listed for the factors 0 and 1, and only the active factor 0 contributes, with its
  block \<open>[[2, 3]]\<close> transposed.
\<close>

theorem collectDualJacobians_guard_witness:
  "VariableIndex_of graph0 7 = None
   \<and> collectDualJacobians 7 graph0 (VariableIndex_of graph0) = Inr []
   \<and> VariableIndex_of graph0 1 = Some [0, 1]
   \<and> collectDualJacobians 1 graph0 (VariableIndex_of graph0) = Inr [(10, [[2], [3]])]
   \<and> [(10, [[2], [3]])] =
       map (\<lambda>i. dual_term 1 (graph0 ! i)) (filter (\<lambda>i. active (graph0 ! i)) [0, 1])"
proof -
  note at7 = collectDualJacobians_guard [of "VariableIndex_of graph0" 7 graph0]
  note at1 = collectDualJacobians_guard [of "VariableIndex_of graph0" 1 graph0]
  have a: "VariableIndex_of graph0 7 = None"
    using at7 by (simp add: graph0_def keys_def)
  have b: "collectDualJacobians 7 graph0 (VariableIndex_of graph0) = Inr []"
    using at7 a by simp
  have c: "VariableIndex_of graph0 1 = Some [0, 1]"
    by (simp add: VariableIndex_of_graph0)
  have d: "collectDualJacobians 1 graph0 (VariableIndex_of graph0) = Inr [(10, [[2], [3]])]"
    using at1 by (simp add: graph0_def dual_term_def keys_def)
  have e: "[(10, [[2], [3]])] =
      map (\<lambda>i. dual_term 1 (graph0 ! i)) (filter (\<lambda>i. active (graph0 ! i)) [0, 1])"
    using at1 c d by blast
  from a b c d e show ?thesis by simp
qed

section \<open>The infeasible start\<close>

text \<open>
  The scan of the inequalities raises as soon as it meets a residual above the tolerance;
  when every residual can be computed, one violated inequality anywhere in the graph is
  enough.
\<close>

lemma identifyActiveConstraints_raises:
  "\<forall>f\<in>set graph. \<exists>r. residual f x0 = Inr r \<Longrightarrow>
   \<exists>f\<in>set graph. \<exists>r. residual f x0 = Inr r \<and> feasibility_tol < r \<Longrightarrow>
   identifyActiveConstraints graph x0 duals0 useWarmStart = Inl (Infeasible InfeasibleInitialValues_ctor)"
proof (induction graph)
  case Nil
  then show ?case by simp
next
  case (Cons f fs)
  from Cons.prems(1) obtain r where r: "residual f x0 = Inr r" by auto
  show ?case
  proof (cases "feasibility_tol < r")
    case True
    with r show ?thesis by simp
  next
    case False
    with r Cons.prems(2) have "\<exists>g\<in>set fs. \<exists>r. residual g x0 = Inr r \<and> feasibility_tol < r"
      by auto
    with Cons.IH Cons.prems(1)
    have "identifyActiveConstraints fs x0 duals0 useWarmStart = Inl (Infeasible InfeasibleInitialValues_ctor)"
      by simp
    with r False show ?thesis by simp
  qed
qed

text \<open>The first call of \<open>what()\<close> on a fresh exception returns the fixed text and stores it.\<close>

lemma what_fresh:
  "what InfeasibleInitialValues_ctor =
     (InfeasibleInitialValues_text, \<lparr>description = InfeasibleInitialValues_text\<rparr>)"
  by (simp add: what_def InfeasibleInitialValues_ctor_def Let_def)

text \<open>
  C6, as stated, fails on its last part: the raised error does not carry which constraints
  are violated. From \<open>start_a\<close> only inequality 0 is violated, from \<open>start_b\<close> only
  inequality 1, and \<open>optimize\<close> ends in the same error value for both: the exception of
  the header is built without arguments.
\<close>

theorem infeasible_error_is_silent:
  "violatedConstraints box2 start_a = [0]
   \<and> violatedConstraints box2 start_b = [1]
   \<and> optimize Inr solver2 start_a Map.empty True = Inl (Infeasible InfeasibleInitialValues_ctor)
   \<and> optimize Inr solver2 start_b Map.empty True = Inl (Infeasible InfeasibleInitialValues_ctor)"
  by (simp add: violatedConstraints_def optimize_def solver2_def box2_def start_a_def start_b_def
      residual_def feasibility_tol_def upt_rec [of 0] upt_rec [of 1] upt_rec [of 2])

text \<open>
  C6, amended. For every initial point that violates some inequality by more than the
  feasibility tolerance (every residual being computable), \<open>identifyActiveConstraints\<close>
  raises \<open>InfeasibleInitialValues\<close>, and so does \<open>optimize\<close>, whatever its main loop is:
  no iteration runs. The error carries no constraint: it is the exception built without
  arguments, whose \<open>what()\<close> is the fixed text of the header.
\<close>

theorem optimize_infeasible_start:
  assumes "\<forall>f\<in>set (inequalities (qp solver)). \<exists>r. residual f initialValues = Inr r"
    and "\<exists>f\<in>set (inequalities (qp solver)). \<exists>r. residual f initialValues = Inr r \<and> feasibility_tol < r"
  shows "identifyActiveConstraints (inequalities (qp solver)) initialValues duals0 useWarmStart =
           Inl (Infeasible InfeasibleInitialValues_ctor)
         \<and> optimize mainLoop solver initialValues duals0 useWarmStart =
           Inl (Infeasible InfeasibleInitialValues_ctor)
         \<and> fst (what InfeasibleInitialValues_ctor) = InfeasibleInitialValues_text"
  using identifyActiveConstraints_raises [OF assms, of duals0 useWarmStart]
  by (simp add: optimize_def what_fresh)

lemma residual_start_a:
  "residual (box2 ! 0) start_a = Inr 4" "residual (box2 ! 1) start_a = Inr (- 1)"
  by (simp_all add: box2_def start_a_def residual_def)

text \<open>
  On \<open>box2\<close> from \<open>start_a\<close>: both residuals are computable, the first is 4, above the
  tolerance, and the call ends in the error before the main loop is entered.
\<close>

theorem optimize_infeasible_start_witness:
  "(\<exists>r. residual (box2 ! 0) start_a = Inr r \<and> feasibility_tol < r)
   \<and> identifyActiveConstraints box2 start_a Map.empty True = Inl (Infeasible InfeasibleInitialValues_ctor)
   \<and> optimize Inr solver2 start_a Map.empty True = Inl (Infeasible InfeasibleInitialValues_ctor)
   \<and> fst (what InfeasibleInitialValues_ctor) = InfeasibleInitialValues_text"
proof -
  have computable: "\<forall>f\<in>set (inequalities (qp solver2)). \<exists>r. residual f start_a = Inr r"
    by (simp add: solver2_def box2_def start_a_def residual_def)
  have violated: "\<exists>f\<in>set (inequalities (qp solver2)). \<exists>r. residual f start_a = Inr r \<and> feasibility_tol < r"
    by (simp add: solver2_def box2_def start_a_def residual_def feasibility_tol_def)
  have first: "\<exists>r. residual (box2 ! 0) start_a = Inr r \<and> feasibility_tol < r"
    by (simp add: residual_start_a feasibility_tol_def)
  from optimize_infeasible_start [OF computable violated, of Map.empty True Inr] first
  show ?thesis by (simp add: solver2_def)
qed

end
